theory Spec2Isabelle
  imports Main
begin

section \<open>Python string operations used by the masking engine\<close>

text \<open>
  A Python \<open>str\<close> is modelled as a \<open>string\<close> (a list of characters). The whitespace of
  \<open>str.strip\<close>, \<open>str.lstrip\<close> and the regular expression class \<open>\s\<close> is the set of code
  points below 128 for which \<open>str.isspace\<close> holds: tab, line feed, vertical tab, form
  feed, carriage return, the four separators 0x1C to 0x1F and the space.
\<close>

definition newline :: char where
  "newline = CHR 0x0A"

definition dquote :: char where
  "dquote = CHR 0x22"

definition squote :: char where
  "squote = CHR 0x27"

definition is_space :: "char \<Rightarrow> bool" where
  "is_space c = (c \<in> set [CHR 0x09, CHR 0x0A, CHR 0x0B, CHR 0x0C, CHR 0x0D,
                            CHR 0x1C, CHR 0x1D, CHR 0x1E, CHR 0x1F, CHR 0x20])"

definition lstrip :: "string \<Rightarrow> string" where
  "lstrip s = dropWhile is_space s"

definition rstrip :: "string \<Rightarrow> string" where
  "rstrip s = rev (dropWhile is_space (rev s))"

definition strip :: "string \<Rightarrow> string" where
  "strip s = rstrip (lstrip s)"

text \<open>\<open>s.strip(chars)\<close>: removes every leading and trailing character that is in \<open>chars\<close>.\<close>

definition strip_chars :: "string \<Rightarrow> string \<Rightarrow> string" where
  "strip_chars chars s =
     rev (dropWhile (\<lambda>c. c \<in> set chars) (rev (dropWhile (\<lambda>c. c \<in> set chars) s)))"

definition startswith :: "string \<Rightarrow> string \<Rightarrow> bool" where
  "startswith s p = (take (length p) s = p)"

definition endswith :: "string \<Rightarrow> string \<Rightarrow> bool" where
  "endswith s p = (length p \<le> length s \<and> drop (length s - length p) s = p)"

text \<open>\<open>sub in s\<close> for strings: \<open>sub\<close> occurs in \<open>s\<close> as a contiguous substring.\<close>

fun contains :: "string \<Rightarrow> string \<Rightarrow> bool" where
  "contains [] sub = (sub = [])"
| "contains (c # cs) sub = (startswith (c # cs) sub \<or> contains cs sub)"

text \<open>\<open>s.split(sep)\<close> for a one-character separator: never returns the empty list.\<close>

fun split :: "char \<Rightarrow> string \<Rightarrow> string list" where
  "split sep [] = [[]]"
| "split sep (c # cs) =
     (if c = sep then [] # split sep cs
      else (case split sep cs of
              [] \<Rightarrow> [[c]]
            | w # ws \<Rightarrow> (c # w) # ws))"

text \<open>\<open>sep.join(parts)\<close>.\<close>

fun join :: "string \<Rightarrow> string list \<Rightarrow> string" where
  "join sep [] = []"
| "join sep [w] = w"
| "join sep (w # v # ws) = w @ sep @ join sep (v # ws)"

text \<open>
  \<open>s.replace(old, new, 1)\<close>: the leftmost occurrence of \<open>old\<close> is replaced, and \<open>s\<close> is
  returned unchanged when there is none. An empty \<open>old\<close> occurs at position 0.
\<close>

fun replace_first :: "string \<Rightarrow> string \<Rightarrow> string \<Rightarrow> string" where
  "replace_first old new [] = (if old = [] then new else [])"
| "replace_first old new (c # cs) =
     (if startswith (c # cs) old then new @ drop (length old) (c # cs)
      else c # replace_first old new cs)"

section \<open>SensitivePatternMatcher\<close>

text \<open>
  The regular-expression engine is Python's standard library. A compiled pattern is
  represented by the predicate it decides on a string: \<open>pattern.search\<close> (unanchored,
  case-insensitive) for the key patterns, \<open>pattern.match\<close> (anchored at the start) for the
  value patterns.
\<close>

type_synonym pattern = "string \<Rightarrow> bool"

record matcher =
  key_patterns :: "pattern list"
  value_patterns :: "pattern list"
  exclude_key_patterns :: "pattern list"
  exclude_value_patterns :: "pattern list"

text \<open>The loop \<open>for pattern in patterns: if pattern.search(s): return ...\<close>.\<close>

primrec any_match :: "pattern list \<Rightarrow> string \<Rightarrow> bool" where
  "any_match [] s = False"
| "any_match (p # ps) s = (if p s then True else any_match ps s)"

definition is_sensitive_key :: "matcher \<Rightarrow> string \<Rightarrow> bool" where
  "is_sensitive_key m k =
     (if any_match (exclude_key_patterns m) k then False
      else if any_match (key_patterns m) k then True
      else False)"

definition is_sensitive_value :: "matcher \<Rightarrow> string \<Rightarrow> bool" where
  "is_sensitive_value m v =
     (if any_match (exclude_value_patterns m) v then False
      else if any_match (value_patterns m) v then True
      else False)"

text \<open>
  \<open>should_mask(key, value)\<close>: the value is \<open>None\<close> or a string. The guard for values that
  are masked already tests the literal \<open>***\<close> at both ends.
\<close>

definition should_mask :: "matcher \<Rightarrow> string \<Rightarrow> string option \<Rightarrow> bool" where
  "should_mask m k value =
     (case value of
        None \<Rightarrow> False
      | Some v \<Rightarrow>
          if v = [] then False
          else if startswith v ''***'' \<and> endswith v ''***'' then False
          else is_sensitive_key m k \<or> is_sensitive_value m v)"

section \<open>Masking items and the line loop\<close>

record masking_item =
  item_line :: nat
  item_key :: string
  item_original_value :: string
  item_type :: string

text \<open>\<open>'"' + mask_format + '"'\<close>, the replacement text of the YAML and Env maskers.\<close>

definition quoted :: "string \<Rightarrow> string" where
  "quoted mask_format = dquote # mask_format @ [dquote]"

definition quote_chars :: string where
  "quote_chars = [dquote, squote]"

section \<open>YamlMasker\<close>

text \<open>
  The loop \<open>while len(indent_stack) > 1 and current_indent <= indent_stack[-1]\<close>: the top
  of each stack is the last element of the list.
\<close>

function pop_stacks :: "nat \<Rightarrow> string list \<Rightarrow> nat list \<Rightarrow> string list \<times> nat list" where
  "pop_stacks current_indent key_stack indent_stack =
     (if length indent_stack > 1 \<and> current_indent \<le> last indent_stack
      then pop_stacks current_indent
             (if key_stack \<noteq> [] then butlast key_stack else key_stack)
             (butlast indent_stack)
      else (key_stack, indent_stack))"
  by pat_completeness auto
termination
  by (relation "measure (\<lambda>(c, ks, ins). length ins)") auto

declare pop_stacks.simps [simp del]

text \<open>\<open>stripped.split(':', 1)[0]\<close> and \<open>stripped.split(':', 1)[1]\<close>, for a string with a colon.\<close>

definition before_colon :: "string \<Rightarrow> string" where
  "before_colon s = takeWhile (\<lambda>c. c \<noteq> CHR '':'') s"

definition after_colon :: "string \<Rightarrow> string" where
  "after_colon s = tl (dropWhile (\<lambda>c. c \<noteq> CHR '':'') s)"

definition full_key_of :: "string list \<Rightarrow> string \<Rightarrow> string" where
  "full_key_of key_stack key_part =
     (if key_stack \<noteq> [] then join ''.'' (key_stack @ [key_part]) else key_part)"

text \<open>
  One iteration of the loop of \<open>YamlMasker.mask_content\<close>: the line appended to
  \<open>result_lines\<close>, the item appended to \<open>masked_items\<close> (if any), and the two stacks after
  the iteration.
\<close>

definition yaml_line ::
  "matcher \<Rightarrow> string \<Rightarrow> nat \<Rightarrow> string \<Rightarrow> string list \<Rightarrow> nat list
     \<Rightarrow> string \<times> masking_item option \<times> string list \<times> nat list" where
  "yaml_line m mask_format line_num line key_stack indent_stack =
     (if strip line = [] \<or> startswith (strip line) ''#''
      then (line, None, key_stack, indent_stack)
      else
        let stripped = lstrip line;
            current_indent = length line - length stripped;
            (ks, ins) = pop_stacks current_indent key_stack indent_stack
        in
          if CHR '':'' \<in> set stripped \<and> \<not> startswith stripped ''-'' then
            let key_part = strip (before_colon stripped);
                value_part = strip (after_colon stripped);
                full_key = full_key_of ks key_part
            in
              if value_part \<noteq> [] \<and> \<not> startswith value_part ''#'' then
                let actual_value = strip_chars quote_chars value_part in
                  if should_mask m full_key (Some actual_value)
                  then (replace_first value_part (quoted mask_format) line,
                        Some \<lparr>item_line = line_num, item_key = full_key,
                              item_original_value = actual_value, item_type = ''yaml''\<rparr>,
                        ks, ins)
                  else (line, None, ks, ins)
              else (line, None, ks @ [key_part], ins @ [current_indent])
          else (line, None, ks, ins))"

fun yaml_loop ::
  "matcher \<Rightarrow> string \<Rightarrow> nat \<Rightarrow> string list \<Rightarrow> string list \<Rightarrow> nat list
     \<Rightarrow> string list \<times> masking_item list" where
  "yaml_loop m mask_format line_num [] key_stack indent_stack = ([], [])"
| "yaml_loop m mask_format line_num (line # rest) key_stack indent_stack =
     (case yaml_line m mask_format line_num line key_stack indent_stack of
        (out, item, ks, ins) \<Rightarrow>
          (case yaml_loop m mask_format (Suc line_num) rest ks ins of
             (outs, items) \<Rightarrow>
               (out # outs, (case item of None \<Rightarrow> items | Some i \<Rightarrow> i # items))))"

definition yaml_mask_content :: "matcher \<Rightarrow> string \<Rightarrow> string \<Rightarrow> string \<times> masking_item list" where
  "yaml_mask_content m mask_format content =
     (case yaml_loop m mask_format 1 (split newline content) [] [0] of
        (result_lines, masked_items) \<Rightarrow> (join [newline] result_lines, masked_items))"

section \<open>PropertiesMasker and EnvMasker\<close>

text \<open>
  The loop shared by the two maskers that keep no state between lines: \<open>f\<close> is one
  iteration, from the line number and the line to the output line and the item (if any).
\<close>

fun line_loop ::
  "(nat \<Rightarrow> string \<Rightarrow> string \<times> masking_item option) \<Rightarrow> nat \<Rightarrow> string list
     \<Rightarrow> string list \<times> masking_item list" where
  "line_loop f line_num [] = ([], [])"
| "line_loop f line_num (line # rest) =
     (case f line_num line of
        (out, item) \<Rightarrow>
          (case line_loop f (Suc line_num) rest of
             (outs, items) \<Rightarrow>
               (out # outs, (case item of None \<Rightarrow> items | Some i \<Rightarrow> i # items))))"

text \<open>
  \<open>re.match(r'^([^=:]+)[=:](.*)$', line)\<close> on a line without a line feed: group 1 is the
  longest prefix free of \<open>=\<close> and \<open>:\<close>, which must be non-empty and followed by one of the
  two; group 2 is the rest of the line.
\<close>

definition is_sep :: "char \<Rightarrow> bool" where
  "is_sep c = (c = CHR ''='' \<or> c = CHR '':'')"

definition properties_match :: "string \<Rightarrow> (string \<times> string) option" where
  "properties_match line =
     (let g1 = takeWhile (\<lambda>c. \<not> is_sep c) line;
          rest = dropWhile (\<lambda>c. \<not> is_sep c) line
      in if g1 \<noteq> [] \<and> rest \<noteq> [] then Some (g1, tl rest) else None)"

definition properties_line ::
  "matcher \<Rightarrow> string \<Rightarrow> nat \<Rightarrow> string \<Rightarrow> string \<times> masking_item option" where
  "properties_line m mask_format line_num line =
     (let stripped = strip line in
      if stripped = [] \<or> startswith stripped ''#'' \<or> startswith stripped ''!''
      then (line, None)
      else
        (case properties_match line of
           Some (g1, g2) \<Rightarrow>
             let k = strip g1; v = strip g2 in
               if should_mask m k (Some v) then
                 let separator = (if CHR ''='' \<in> set line then ''='' else '':'') in
                   (k @ separator @ mask_format,
                    Some \<lparr>item_line = line_num, item_key = k,
                          item_original_value = v, item_type = ''properties''\<rparr>)
               else (line, None)
         | None \<Rightarrow> (line, None)))"

definition properties_mask_content ::
  "matcher \<Rightarrow> string \<Rightarrow> string \<Rightarrow> string \<times> masking_item list" where
  "properties_mask_content m mask_format content =
     (case line_loop (properties_line m mask_format) 1 (split newline content) of
        (result_lines, masked_items) \<Rightarrow> (join [newline] result_lines, masked_items))"

text \<open>
  \<open>re.match(r'^(export\s+)?([A-Za-z_][A-Za-z0-9_]*)=(.*)$', line)\<close> on a line without a
  line feed. An identifier cannot start with whitespace and cannot contain \<open>=\<close>, so the
  match is unique: the optional group takes \<open>export\<close> and all the whitespace after it, the
  key is the longest run of identifier characters and must be followed by \<open>=\<close>.
\<close>

definition is_ident_start :: "char \<Rightarrow> bool" where
  "is_ident_start c =
     (c \<in> set ''ABCDEFGHIJKLMNOPQRSTUVWXYZabcdefghijklmnopqrstuvwxyz_'')"

definition is_ident_char :: "char \<Rightarrow> bool" where
  "is_ident_char c = (is_ident_start c \<or> c \<in> set ''0123456789'')"

text \<open>\<open>([A-Za-z_][A-Za-z0-9_]*)=(.*)$\<close> at the start of \<open>s\<close>: the key and the raw value.\<close>

definition ident_assign :: "string \<Rightarrow> (string \<times> string) option" where
  "ident_assign s =
     (case s of
        [] \<Rightarrow> None
      | c # cs \<Rightarrow>
          if is_ident_start c then
            (case dropWhile is_ident_char cs of
               [] \<Rightarrow> None
             | d # ds \<Rightarrow>
                 if d = CHR ''='' then Some (c # takeWhile is_ident_char cs, ds) else None)
          else None)"

text \<open>The three groups of the match: export prefix (empty when absent), key, raw value.\<close>

definition env_match :: "string \<Rightarrow> (string \<times> string \<times> string) option" where
  "env_match line =
     (let after_export = drop 6 line;
          spaces = takeWhile is_space after_export;
          with_export =
            (if startswith line ''export'' \<and> spaces \<noteq> []
             then (case ident_assign (dropWhile is_space after_export) of
                     Some (k, raw) \<Rightarrow> Some (''export'' @ spaces, k, raw)
                   | None \<Rightarrow> None)
             else None)
      in case with_export of
           Some r \<Rightarrow> Some r
         | None \<Rightarrow>
             (case ident_assign line of
                Some (k, raw) \<Rightarrow> Some ([], k, raw)
              | None \<Rightarrow> None))"

definition env_line ::
  "matcher \<Rightarrow> string \<Rightarrow> nat \<Rightarrow> string \<Rightarrow> string \<times> masking_item option" where
  "env_line m mask_format line_num line =
     (let stripped = strip line in
      if stripped = [] \<or> startswith stripped ''#''
      then (line, None)
      else
        (case env_match line of
           Some (export_prefix, k, raw) \<Rightarrow>
             let v = strip_chars quote_chars raw in
               if should_mask m k (Some v) then
                 (export_prefix @ k @ ''='' @ quoted mask_format,
                  Some \<lparr>item_line = line_num, item_key = k,
                        item_original_value = v, item_type = ''env''\<rparr>)
               else (line, None)
         | None \<Rightarrow> (line, None)))"

definition env_mask_content :: "matcher \<Rightarrow> string \<Rightarrow> string \<Rightarrow> string \<times> masking_item list" where
  "env_mask_content m mask_format content =
     (case line_loop (env_line m mask_format) 1 (split newline content) of
        (result_lines, masked_items) \<Rightarrow> (join [newline] result_lines, masked_items))"

section \<open>MaskingEngine\<close>

record masking_result =
  file_path :: string
  original_content :: string
  masked_content :: string
  masked_items :: "masking_item list"
  error :: "string option"

definition is_success :: "masking_result \<Rightarrow> bool" where
  "is_success r = (error r = None)"

definition masked_count :: "masking_result \<Rightarrow> nat" where
  "masked_count r = length (masked_items r)"

text \<open>The engine holds the matcher shared by the three maskers and the mask format.\<close>

record engine =
  eng_matcher :: matcher
  eng_mask_format :: string

text \<open>
  The body of the \<open>try\<close> block of \<open>mask_file\<close>, up to the construction of the result: the
  dispatch on the file name. \<open>Inl\<close> carries the text of an exception raised in the body,
  \<open>Inr\<close> the pair returned by the masker. On strings no masker raises.
\<close>

definition dispatch :: "engine \<Rightarrow> string \<Rightarrow> string \<Rightarrow> string + (string \<times> masking_item list)" where
  "dispatch e path content =
     (if endswith path ''.yml'' \<or> endswith path ''.yaml''
      then Inr (yaml_mask_content (eng_matcher e) (eng_mask_format e) content)
      else if endswith path ''.properties''
      then Inr (properties_mask_content (eng_matcher e) (eng_mask_format e) content)
      else if endswith path ''.env'' \<or> contains path ''.env''
      then Inr (env_mask_content (eng_matcher e) (eng_mask_format e) content)
      else Inr (properties_mask_content (eng_matcher e) (eng_mask_format e) content))"

text \<open>
  The \<open>try\<close>/\<open>except Exception\<close> of \<open>mask_file\<close>, applied to the outcome of its body: a
  returned pair becomes a result without error, an exception becomes a result that
  carries the original content and the exception's text.
\<close>

definition result_of ::
  "string \<Rightarrow> string \<Rightarrow> string + (string \<times> masking_item list) \<Rightarrow> masking_result" where
  "result_of path content outcome =
     (case outcome of
        Inr (mc, items) \<Rightarrow>
          \<lparr>file_path = path, original_content = content, masked_content = mc,
           masked_items = items, error = None\<rparr>
      | Inl e \<Rightarrow>
          \<lparr>file_path = path, original_content = content, masked_content = content,
           masked_items = [], error = Some e\<rparr>)"

definition mask_file :: "engine \<Rightarrow> string \<Rightarrow> string \<Rightarrow> masking_result" where
  "mask_file e path content = result_of path content (dispatch e path content)"

section \<open>FileScanner\<close>

text \<open>
  \<open>fnmatch.fnmatch(name, pattern)\<close> is Python's standard library: the scanner's functions
  take it as the parameter \<open>fnmatch\<close>. \<open>exclude_dirs\<close> is the list the set is built from.
\<close>

record scanner =
  file_patterns :: "string list"
  exclude_dirs :: "string list"
  include_patterns :: "string list"
  exclude_patterns :: "string list"

definition should_exclude_dir :: "scanner \<Rightarrow> string \<Rightarrow> bool" where
  "should_exclude_dir sc dir_name = (dir_name \<in> set (exclude_dirs sc) \<or> startswith dir_name ''.'')"

primrec matches_pattern :: "(string \<Rightarrow> string \<Rightarrow> bool) \<Rightarrow> string \<Rightarrow> string list \<Rightarrow> bool" where
  "matches_pattern fnmatch filename [] = False"
| "matches_pattern fnmatch filename (p # ps) =
     (if fnmatch filename p then True else matches_pattern fnmatch filename ps)"

text \<open>The loop over \<open>exclude_patterns\<close> of \<open>_should_process_file\<close>.\<close>

primrec excluded_by :: "(string \<Rightarrow> string \<Rightarrow> bool) \<Rightarrow> string \<Rightarrow> string \<Rightarrow> string list \<Rightarrow> bool" where
  "excluded_by fnmatch rel_path filename [] = False"
| "excluded_by fnmatch rel_path filename (p # ps) =
     (if fnmatch rel_path p \<or> fnmatch filename p then True
      else excluded_by fnmatch rel_path filename ps)"

definition should_process_file ::
  "(string \<Rightarrow> string \<Rightarrow> bool) \<Rightarrow> scanner \<Rightarrow> string \<Rightarrow> string \<Rightarrow> bool" where
  "should_process_file fnmatch sc rel_path filename =
     (if exclude_patterns sc \<noteq> [] \<and> excluded_by fnmatch rel_path filename (exclude_patterns sc)
      then False
      else if include_patterns sc \<noteq> [] then matches_pattern fnmatch filename (include_patterns sc)
      else matches_pattern fnmatch filename (file_patterns sc))"

text \<open>
  \<open>os.path.join(a, b)\<close> of \<open>posixpath\<close>, for two arguments: an absolute \<open>b\<close> replaces \<open>a\<close>,
  and the separator is added unless \<open>a\<close> is empty or ends with one.
\<close>

definition path_join :: "string \<Rightarrow> string \<Rightarrow> string" where
  "path_join a b =
     (if startswith b ''/'' then b
      else if a = [] \<or> endswith a ''/'' then a @ b
      else a @ ''/'' @ b)"

text \<open>
  A directory as \<open>os.walk\<close> sees it: the names of its files, and its subdirectories with
  their names, in the order of the listing.
\<close>

datatype tree = Dir "string list" "(string \<times> tree) list"

text \<open>
  The path of a file relative to the project root, from the names of the directories
  between the root and the file, outermost first: \<open>os.path.relpath(file_path, project_path)\<close>.
\<close>

definition rel_path_of :: "string list \<Rightarrow> string \<Rightarrow> string" where
  "rel_path_of dirs filename = join ''/'' (dirs @ [filename])"

text \<open>
  The loop of \<open>scan\<close> over \<open>os.walk\<close> (top-down): the files of the directory first, then
  each subdirectory that the in-place filter of \<open>dirs\<close> keeps, in order. An entry is the
  chain of directory names below the project root together with the file name.
\<close>

fun scan_tree ::
  "(string \<Rightarrow> string \<Rightarrow> bool) \<Rightarrow> scanner \<Rightarrow> string list \<Rightarrow> tree \<Rightarrow> (string list \<times> string) list"
and scan_dirs ::
  "(string \<Rightarrow> string \<Rightarrow> bool) \<Rightarrow> scanner \<Rightarrow> string list \<Rightarrow> (string \<times> tree) list
     \<Rightarrow> (string list \<times> string) list" where
  "scan_tree fnmatch sc dirs (Dir files subdirs) =
     map (\<lambda>f. (dirs, f))
       (filter (\<lambda>f. should_process_file fnmatch sc (rel_path_of dirs f) f) files)
     @ scan_dirs fnmatch sc dirs subdirs"
| "scan_dirs fnmatch sc dirs [] = []"
| "scan_dirs fnmatch sc dirs ((d, t) # rest) =
     (if should_exclude_dir sc d then [] else scan_tree fnmatch sc (dirs @ [d]) t)
     @ scan_dirs fnmatch sc dirs rest"

text \<open>The absolute path that \<open>scan\<close> yields for an entry: \<open>os.path.join(root, filename)\<close>.\<close>

definition entry_path :: "string \<Rightarrow> string list \<times> string \<Rightarrow> string" where
  "entry_path project_path entry = path_join (foldl path_join project_path (fst entry)) (snd entry)"

text \<open>\<open>scan\<close> on a project path that is absolute already, and the tree found there.\<close>

definition scan :: "(string \<Rightarrow> string \<Rightarrow> bool) \<Rightarrow> scanner \<Rightarrow> string \<Rightarrow> tree \<Rightarrow> string list" where
  "scan fnmatch sc project_path t = map (entry_path project_path) (scan_tree fnmatch sc [] t)"

section \<open>BackupManager\<close>

text \<open>
  The file system is a map from paths to files. A file is either data or a manifest: a
  file whose text \<open>json.load\<close> reads as a JSON object from strings to strings, held as
  the list of its members in order. Directories are not modelled: the directory of every
  path written exists (\<open>os.makedirs\<close> creates the backup directory).
\<close>

datatype file_content = Data string | Manifest "(string \<times> string) list"

type_synonym filesystem = "string \<Rightarrow> file_content option"

datatype error = FileNotFoundError | SameFileError | JSONDecodeError

text \<open>A Python \<open>dict\<close> as the list of its items in insertion order, with distinct keys.\<close>

fun dict_set :: "(string \<times> string) list \<Rightarrow> string \<Rightarrow> string \<Rightarrow> (string \<times> string) list" where
  "dict_set [] k v = [(k, v)]"
| "dict_set ((k', v') # d) k v = (if k' = k then (k, v) # d else (k', v') # dict_set d k v)"

text \<open>\<open>d.update(other)\<close>.\<close>

fun dict_update :: "(string \<times> string) list \<Rightarrow> (string \<times> string) list \<Rightarrow> (string \<times> string) list" where
  "dict_update d [] = d"
| "dict_update d ((k, v) # other) = dict_update (dict_set d k v) other"

text \<open>\<open>json.load\<close>: of the members of an object with a repeated name, the last one counts.\<close>

definition json_load :: "filesystem \<Rightarrow> string \<Rightarrow> error + (string \<times> string) list" where
  "json_load fs path =
     (case fs path of
        Some (Manifest members) \<Rightarrow> Inr (dict_update [] members)
      | Some (Data text) \<Rightarrow> Inl JSONDecodeError
      | None \<Rightarrow> Inl FileNotFoundError)"

text \<open>\<open>shutil.copy2(src, dst)\<close>.\<close>

definition copy2 :: "filesystem \<Rightarrow> string \<Rightarrow> string \<Rightarrow> error + filesystem" where
  "copy2 fs src dst =
     (if fs src = None then Inl FileNotFoundError
      else if src = dst then Inl SameFileError
      else Inr (fs(dst := fs src)))"

record backup_manager =
  backup_dir_name :: string
  suffix :: string
  backup_manifest :: "(string \<times> string) list"

definition get_backup_dir :: "backup_manager \<Rightarrow> string \<Rightarrow> string" where
  "get_backup_dir mgr project_path = path_join project_path (backup_dir_name mgr)"

definition manifest_path :: "backup_manager \<Rightarrow> string \<Rightarrow> string" where
  "manifest_path mgr project_path = path_join (get_backup_dir mgr project_path) ''manifest.json''"

text \<open>
  \<open>_get_backup_path\<close>. \<open>os.path.relpath\<close> is the standard library's and the time stamp
  is the clock's: \<open>relpath\<close> and \<open>timestamp\<close> (the text \<open>strftime\<close> returns) are parameters.
\<close>

definition get_backup_path ::
  "(string \<Rightarrow> string \<Rightarrow> string) \<Rightarrow> string \<Rightarrow> backup_manager \<Rightarrow> string \<Rightarrow> string \<Rightarrow> string" where
  "get_backup_path relpath timestamp mgr original_path project_path =
     (let backup_dir = get_backup_dir mgr project_path;
          rel_path = relpath original_path project_path;
          backup_filename =
            map (\<lambda>c. if c = CHR ''/'' then CHR ''_'' else c) rel_path @ ''_'' @ timestamp @ suffix mgr
      in path_join backup_dir backup_filename)"

text \<open>
  \<open>_save_manifest\<close>: the outcome (\<open>Inl\<close> an exception raised by \<open>json.load\<close>) and the file
  system after the call.
\<close>

definition save_manifest :: "backup_manager \<Rightarrow> filesystem \<Rightarrow> string \<Rightarrow> (error + unit) \<times> filesystem" where
  "save_manifest mgr fs project_path =
     (let mp = manifest_path mgr project_path in
      if fs mp \<noteq> None then
        (case json_load fs mp of
           Inl e \<Rightarrow> (Inl e, fs)
         | Inr existing \<Rightarrow>
             (Inr (), fs(mp \<mapsto> Manifest (dict_update existing (backup_manifest mgr)))))
      else (Inr (), fs(mp \<mapsto> Manifest (dict_update [] (backup_manifest mgr)))))"

text \<open>
  \<open>create_backup\<close>: the outcome (the backup path, or an exception), the manager and the
  file system after the call. An exception of \<open>_save_manifest\<close> leaves the copy and the
  manager's new entry in place.
\<close>

definition create_backup ::
  "(string \<Rightarrow> string \<Rightarrow> string) \<Rightarrow> string \<Rightarrow> backup_manager \<Rightarrow> filesystem \<Rightarrow> string \<Rightarrow> string
     \<Rightarrow> (error + string) \<times> backup_manager \<times> filesystem" where
  "create_backup relpath timestamp mgr fs path project_path =
     (let backup_path = get_backup_path relpath timestamp mgr path project_path in
      case copy2 fs path backup_path of
        Inl e \<Rightarrow> (Inl e, mgr, fs)
      | Inr fs1 \<Rightarrow>
          let mgr1 = mgr\<lparr>backup_manifest := dict_set (backup_manifest mgr) path backup_path\<rparr> in
            (case save_manifest mgr1 fs1 project_path of
               (Inl e, fs2) \<Rightarrow> (Inl e, mgr1, fs2)
             | (Inr u, fs2) \<Rightarrow> (Inr backup_path, mgr1, fs2)))"

text \<open>
  The loop of \<open>restore_all\<close> over the items of the manifest: the restored paths so far
  are \<open>restored\<close>.
\<close>

fun restore_loop ::
  "filesystem \<Rightarrow> (string \<times> string) list \<Rightarrow> string list \<Rightarrow> (error + string list) \<times> filesystem" where
  "restore_loop fs [] restored = (Inr restored, fs)"
| "restore_loop fs ((original_path, backup_path) # items) restored =
     (if fs backup_path \<noteq> None then
        (case copy2 fs backup_path original_path of
           Inl e \<Rightarrow> (Inl e, fs)
         | Inr fs1 \<Rightarrow> restore_loop fs1 items (restored @ [original_path]))
      else restore_loop fs items restored)"

definition restore_all :: "backup_manager \<Rightarrow> filesystem \<Rightarrow> string \<Rightarrow> (error + string list) \<times> filesystem" where
  "restore_all mgr fs project_path =
     (let mp = manifest_path mgr project_path in
      if fs mp = None then (Inr [], fs)
      else
        (case json_load fs mp of
           Inl e \<Rightarrow> (Inl e, fs)
         | Inr manifest \<Rightarrow> restore_loop fs manifest []))"

section \<open>Example configurations\<close>

text \<open>
  The predicate of \<open>re.compile(lit, re.IGNORECASE).search\<close> for a pattern \<open>lit\<close> that is a
  text of letters without metacharacters: the key contains \<open>lit\<close>, letters compared
  without case.
\<close>

definition lower_char :: "char \<Rightarrow> char" where
  "lower_char c =
     (case map_of (zip ''ABCDEFGHIJKLMNOPQRSTUVWXYZ'' ''abcdefghijklmnopqrstuvwxyz'') c of
        Some d \<Rightarrow> d
      | None \<Rightarrow> c)"

definition literal_search :: "string \<Rightarrow> pattern" where
  "literal_search lit s = contains (map lower_char s) (map lower_char lit)"

text \<open>The predicate of \<open>re.compile(lit).match\<close> for such a pattern: the value starts with it.\<close>

definition literal_match :: "string \<Rightarrow> pattern" where
  "literal_match lit s = startswith s lit"

text \<open>Key patterns \<open>password\<close> and \<open>token\<close>, nothing else.\<close>

definition demo_matcher :: matcher where
  "demo_matcher =
     \<lparr>key_patterns = [literal_search ''password'', literal_search ''token''],
      value_patterns = [], exclude_key_patterns = [], exclude_value_patterns = []\<rparr>"

text \<open>
  The key pattern \<open>password\<close>, the exclude-key pattern \<open>hint\<close> and the value pattern
  \<open>sk-\<close>.
\<close>

definition hint_matcher :: matcher where
  "hint_matcher =
     \<lparr>key_patterns = [literal_search ''password''],
      value_patterns = [literal_match ''sk-''],
      exclude_key_patterns = [literal_search ''hint''],
      exclude_value_patterns = []\<rparr>"

definition default_mask :: string where
  "default_mask = ''***MASKED***''"

definition demo_engine :: engine where
  "demo_engine = \<lparr>eng_matcher = demo_matcher, eng_mask_format = default_mask\<rparr>"


text \<open>
  Every file of a tree with the chain of directory names that leads to it, in the order
  of the walk without any pruning: what the scanner chooses from.
\<close>

fun all_files :: "string list \<Rightarrow> tree \<Rightarrow> (string list \<times> string) list"
and all_files_dirs :: "string list \<Rightarrow> (string \<times> tree) list \<Rightarrow> (string list \<times> string) list" where
  "all_files dirs (Dir files subdirs) = map (\<lambda>f. (dirs, f)) files @ all_files_dirs dirs subdirs"
| "all_files_dirs dirs [] = []"
| "all_files_dirs dirs ((d, t) # rest) = all_files (dirs @ [d]) t @ all_files_dirs dirs rest"

text \<open>\<open>fnmatch\<close> on patterns without wildcard characters: the name is the pattern.\<close>

definition exact_match :: "string \<Rightarrow> string \<Rightarrow> bool" where
  "exact_match name pat = (name = pat)"

definition demo_scanner :: scanner where
  "demo_scanner =
     \<lparr>file_patterns = [''application.yml''], exclude_dirs = [''node_modules''],
      include_patterns = [], exclude_patterns = []\<rparr>"

text \<open>
  A project with \<open>application.yml\<close> at the root, in \<open>src\<close> and in \<open>node_modules/conf\<close>.
\<close>

definition demo_tree :: tree where
  "demo_tree =
     Dir [''application.yml'']
       [(''node_modules'', Dir [] [(''conf'', Dir [''application.yml''] [])]),
        (''src'', Dir [''application.yml'', ''README.md''] [])]"

text \<open>
  An entry that the scan keeps: no directory of its chain is excluded, and the file
  passes \<open>_should_process_file\<close>.
\<close>

definition kept :: "(string \<Rightarrow> string \<Rightarrow> bool) \<Rightarrow> scanner \<Rightarrow> string list \<times> string \<Rightarrow> bool" where
  "kept fnmatch sc entry =
     ((\<forall>d \<in> set (fst entry). \<not> should_exclude_dir sc d)
      \<and> should_process_file fnmatch sc (rel_path_of (fst entry) (snd entry)) (snd entry))"

text \<open>
  The dictionary that \<open>_save_manifest\<close> starts from: the manifest read from the path, or
  the empty dictionary when no manifest can be read there.
\<close>

definition on_disk_manifest :: "filesystem \<Rightarrow> string \<Rightarrow> (string \<times> string) list" where
  "on_disk_manifest fs path = (case json_load fs path of Inr d \<Rightarrow> d | Inl e \<Rightarrow> [])"

text \<open>\<open>os.path.relpath(path, start)\<close> for a path under \<open>start\<close>: what follows \<open>start\<close> and the separator.\<close>

definition relpath_under :: "string \<Rightarrow> string \<Rightarrow> string" where
  "relpath_under path start = drop (length start + 1) path"

text \<open>\<open>BackupManager()\<close> with its defaults, before any backup.\<close>

definition demo_manager :: backup_manager where
  "demo_manager = \<lparr>backup_dir_name = ''.masking_backup'', suffix = ''.backup'', backup_manifest = []\<rparr>"

definition demo_file :: string where
  "demo_file = ''/proj/application.yml''"

definition demo_fs :: filesystem where
  "demo_fs = (\<lambda>p. None)(demo_file \<mapsto> Data ''password: one'')"

text \<open>
  A first backup of the file, the file rewritten, a second backup five seconds later, the
  file rewritten again, and the restore.
\<close>

definition demo_first :: "(error + string) \<times> backup_manager \<times> filesystem" where
  "demo_first = create_backup relpath_under ''20240101_000000'' demo_manager demo_fs demo_file ''/proj''"

definition demo_second :: "(error + string) \<times> backup_manager \<times> filesystem" where
  "demo_second =
     create_backup relpath_under ''20240101_000005'' (fst (snd demo_first))
       ((snd (snd demo_first))(demo_file \<mapsto> Data ''password: two'')) demo_file ''/proj''"

definition demo_restore :: "(error + string list) \<times> filesystem" where
  "demo_restore =
     restore_all (fst (snd demo_second))
       ((snd (snd demo_second))(demo_file \<mapsto> Data ''password: three'')) ''/proj''"

text \<open>
  One manager backs up a file of the project \<open>/a\<close> and then a file of the project \<open>/b\<close>.
\<close>

definition two_roots_fs :: filesystem where
  "two_roots_fs = (\<lambda>p. None)(''/a/x.env'' \<mapsto> Data ''TOKEN=1'', ''/b/y.env'' \<mapsto> Data ''TOKEN=2'')"

definition two_roots_first :: "(error + string) \<times> backup_manager \<times> filesystem" where
  "two_roots_first =
     create_backup relpath_under ''20240101_000000'' demo_manager two_roots_fs ''/a/x.env'' ''/a''"

definition two_roots_second :: "(error + string) \<times> backup_manager \<times> filesystem" where
  "two_roots_second =
     create_backup relpath_under ''20240101_000001'' (fst (snd two_roots_first))
       (snd (snd two_roots_first)) ''/b/y.env'' ''/b''"

section \<open>Properties of the pattern matcher\<close>

lemma any_match_iff: "any_match ps s = (\<exists>p \<in> set ps. p s)"
  by (induction ps) auto

lemma hint_key_facts:
  "literal_search ''password'' ''password_hint''" "literal_search ''hint'' ''password_hint''"
  by (simp_all add: literal_search_def lower_char_def startswith_def)

text \<open>
  Claim C4, as amended. For every key, \<open>is_sensitive_key\<close> is true iff the key matches no
  exclude-key pattern and matches at least one include-key pattern, the exclusion being
  tested first. A key that matches an exclude-key pattern is therefore never sensitive as
  a key, whatever include pattern it matches; \<open>should_mask\<close> for it is true exactly when
  the value is present, non-empty, not wrapped in \<open>***\<close> and sensitive by the value
  patterns.
\<close>

theorem is_sensitive_key_exclude_first:
  "is_sensitive_key m k =
     (\<not> (\<exists>p \<in> set (exclude_key_patterns m). p k) \<and> (\<exists>p \<in> set (key_patterns m). p k))
   \<and> ((\<exists>p \<in> set (exclude_key_patterns m). p k) \<longrightarrow>
        \<not> is_sensitive_key m k \<and>
        should_mask m k value =
          (case value of
             None \<Rightarrow> False
           | Some v \<Rightarrow> v \<noteq> [] \<and> \<not> (startswith v ''***'' \<and> endswith v ''***'')
                        \<and> is_sensitive_value m v))"
  by (auto simp: is_sensitive_key_def should_mask_def any_match_iff split: option.splits)

theorem is_sensitive_key_exclude_first_witness:
  "(\<exists>p \<in> set (exclude_key_patterns hint_matcher). p ''password_hint'')
   \<and> (\<exists>p \<in> set (key_patterns hint_matcher). p ''password_hint'')
   \<and> is_sensitive_key hint_matcher ''password_hint'' = False
   \<and> should_mask hint_matcher ''password_hint'' (Some ''hunter2'') = False
   \<and> should_mask hint_matcher ''password_hint'' (Some ''sk-12'') = True"
  using is_sensitive_key_exclude_first [of hint_matcher "''password_hint''" "Some ''hunter2''"]
    is_sensitive_key_exclude_first [of hint_matcher "''password_hint''" "Some ''sk-12''"]
  by (simp add: hint_matcher_def hint_key_facts is_sensitive_value_def literal_match_def
      startswith_def endswith_def)

text \<open>
  The claim as stated fails: the key \<open>password_hint\<close> matches the include pattern
  \<open>password\<close> and the exclude pattern \<open>hint\<close>, and the Properties masker masks it all
  the same, because its value matches a value pattern.
\<close>

theorem excluded_key_masked_counterexample:
  "any_match (key_patterns hint_matcher) ''password_hint''
   \<and> any_match (exclude_key_patterns hint_matcher) ''password_hint''
   \<and> properties_mask_content hint_matcher default_mask ''password_hint=sk-12''
       = (''password_hint=***MASKED***'',
          [\<lparr>item_line = 1, item_key = ''password_hint'', item_original_value = ''sk-12'',
            item_type = ''properties''\<rparr>])"
  by (simp add: hint_matcher_def hint_key_facts properties_mask_content_def properties_line_def
      properties_match_def is_sep_def strip_def lstrip_def rstrip_def is_space_def
      startswith_def endswith_def should_mask_def is_sensitive_key_def is_sensitive_value_def
      literal_match_def default_mask_def newline_def)

section \<open>Properties of the masking engine\<close>

lemma demo_key_facts:
  "literal_search ''password'' ''db.password''"
  "literal_search ''password'' ''spring.datasource.password''"
  "literal_search ''token'' ''TOKEN''"
  by (simp_all add: literal_search_def lower_char_def startswith_def)

lemma properties_example:
  "properties_mask_content demo_matcher default_mask ''db.password=s3cr3t''
     = (''db.password=***MASKED***'',
        [\<lparr>item_line = 1, item_key = ''db.password'', item_original_value = ''s3cr3t'',
          item_type = ''properties''\<rparr>])"
  by (simp add: demo_matcher_def demo_key_facts properties_mask_content_def properties_line_def
      properties_match_def is_sep_def strip_def lstrip_def rstrip_def is_space_def
      startswith_def endswith_def should_mask_def is_sensitive_key_def
      default_mask_def newline_def)

text \<open>
  Claim C1. \<open>mask_file\<close> is a total function of the path and the content: on strings the
  body of its \<open>try\<close> block always returns, so the result carries no error, is a success
  and keeps the original content. Whatever the outcome of the body, a result whose error
  field is set has the unmodified content as its masked content and no items, and a
  result is a success iff its error field is absent.
\<close>

theorem mask_file_all_or_nothing:
  "(\<exists>mc items. dispatch e path content = Inr (mc, items))
   \<and> error (mask_file e path content) = None
   \<and> is_success (mask_file e path content)
   \<and> original_content (mask_file e path content) = content
   \<and> (error (result_of path content outcome) \<noteq> None \<longrightarrow>
        masked_content (result_of path content outcome) = content
        \<and> masked_items (result_of path content outcome) = [])
   \<and> is_success (result_of path content outcome) = (error (result_of path content outcome) = None)"
  by (auto simp: dispatch_def mask_file_def result_of_def is_success_def
      split: sum.splits prod.splits)

theorem mask_file_all_or_nothing_witness:
  "error (result_of ''a.yml'' ''k: v'' (Inl ''boom'')) \<noteq> None
   \<and> masked_content (result_of ''a.yml'' ''k: v'' (Inl ''boom'')) = ''k: v''
   \<and> \<not> is_success (result_of ''a.yml'' ''k: v'' (Inl ''boom''))
   \<and> is_success (mask_file demo_engine ''application.properties'' ''db.password=s3cr3t'')
   \<and> masked_content (mask_file demo_engine ''application.properties'' ''db.password=s3cr3t'')
       = ''db.password=***MASKED***''"
  using mask_file_all_or_nothing [of demo_engine "''a.yml''" "''k: v''" "Inl ''boom''"]
    mask_file_all_or_nothing
      [of demo_engine "''application.properties''" "''db.password=s3cr3t''" "Inl ''boom''"]
  by (simp add: result_of_def is_success_def mask_file_def dispatch_def endswith_def
      demo_engine_def properties_example)

section \<open>Properties of the Properties masker\<close>






section \<open>Properties of the Env masker\<close>














section \<open>Properties of the YAML masker\<close>










section \<open>What a masked line keeps\<close>












text \<open>
  When the raw value text occurs in the key, the first occurrence is the one in the key:
  the YAML masker then rewrites the key and leaves the value in place.
\<close>

lemma yaml_value_in_key_example:
  "yaml_line demo_matcher default_mask 1 ''password: password'' [] [0]
     = (quoted default_mask @ '': password'',
        Some \<lparr>item_line = 1, item_key = ''password'', item_original_value = ''password'',
              item_type = ''yaml''\<rparr>,
        [], [0])"
  by (simp add: yaml_line_def pop_stacks.simps full_key_of_def
      before_colon_def after_colon_def demo_matcher_def
      strip_chars_def quote_chars_def quoted_def dquote_def squote_def
      strip_def lstrip_def rstrip_def is_space_def literal_search_def lower_char_def
      startswith_def endswith_def should_mask_def is_sensitive_key_def
      default_mask_def Let_def)




section \<open>The guard for values masked already\<close>

lemma should_mask_guard:
  "should_mask m k None = False"
  "should_mask m k (Some []) = False"
  "startswith v ''***'' \<Longrightarrow> endswith v ''***'' \<Longrightarrow> should_mask m k (Some v) = False"
  by (simp_all add: should_mask_def)

text \<open>
  Claim C5 at a mask format that does not begin and end with \<open>***\<close>. With the mask format
  \<open>[REDACTED]\<close> the Properties masker masks \<open>db.password=s3cr3t\<close> to
  \<open>db.password=[REDACTED]\<close>; run on that output, it emits an item again, whose original
  value is the mask format itself: \<open>should_mask\<close> is true of a value that equals the
  configured mask format.
\<close>

theorem configured_mask_format_masked_again:
  "properties_mask_content demo_matcher ''[REDACTED]'' ''db.password=s3cr3t''
     = (''db.password=[REDACTED]'',
        [\<lparr>item_line = 1, item_key = ''db.password'', item_original_value = ''s3cr3t'',
          item_type = ''properties''\<rparr>])
   \<and> properties_mask_content demo_matcher ''[REDACTED]'' ''db.password=[REDACTED]''
     = (''db.password=[REDACTED]'',
        [\<lparr>item_line = 1, item_key = ''db.password'', item_original_value = ''[REDACTED]'',
          item_type = ''properties''\<rparr>])
   \<and> should_mask demo_matcher ''db.password'' (Some ''[REDACTED]'')"
  by (simp add: demo_matcher_def demo_key_facts properties_mask_content_def properties_line_def
      properties_match_def is_sep_def strip_def lstrip_def rstrip_def is_space_def
      startswith_def endswith_def should_mask_def is_sensitive_key_def newline_def Let_def)

section \<open>Properties of the file scanner\<close>

lemma all_files_prefix:
  "(dirs, f) \<in> set (all_files dirs0 t) \<Longrightarrow> set dirs0 \<subseteq> set dirs"
  "(dirs, f) \<in> set (all_files_dirs dirs0 subs) \<Longrightarrow> set dirs0 \<subseteq> set dirs"
  by (induction dirs0 t and dirs0 subs rule: all_files_all_files_dirs.induct) auto

lemma excluded_subtree_empty:
  assumes "should_exclude_dir sc d" "d \<in> set dirs0"
  shows "filter (kept fnmatch sc) (all_files dirs0 t) = []"
proof -
  have "\<forall>e \<in> set (all_files dirs0 t). \<not> kept fnmatch sc e"
  proof
    fix e assume e: "e \<in> set (all_files dirs0 t)"
    obtain dirs f where ef: "e = (dirs, f)" by (cases e)
    with e all_files_prefix(1) [of dirs f dirs0 t] assms(2) have "d \<in> set dirs" by auto
    with assms(1) ef show "\<not> kept fnmatch sc e" by (auto simp: kept_def)
  qed
  then show ?thesis by (simp add: filter_empty_conv)
qed

lemma scan_tree_filter:
  "\<forall>d \<in> set dirs0. \<not> should_exclude_dir sc d \<Longrightarrow>
     scan_tree fnmatch sc dirs0 t = filter (kept fnmatch sc) (all_files dirs0 t)"
  "\<forall>d \<in> set dirs0. \<not> should_exclude_dir sc d \<Longrightarrow>
     scan_dirs fnmatch sc dirs0 subs = filter (kept fnmatch sc) (all_files_dirs dirs0 subs)"
proof (induction fnmatch sc dirs0 t and fnmatch sc dirs0 subs rule: scan_tree_scan_dirs.induct)
  case (1 fnmatch sc dirs files subdirs)
  have "filter (kept fnmatch sc) (map (\<lambda>f. (dirs, f)) files)
          = map (\<lambda>f. (dirs, f)) (filter (\<lambda>f. should_process_file fnmatch sc (rel_path_of dirs f) f) files)"
    using "1.prems" by (induction files) (auto simp: kept_def)
  with 1 show ?case by simp
next
  case (2 fnmatch sc dirs)
  show ?case by simp
next
  case (3 fnmatch sc dirs d t rest)
  show ?case
  proof (cases "should_exclude_dir sc d")
    case True
    then have "filter (kept fnmatch sc) (all_files (dirs @ [d]) t) = []"
      by (rule excluded_subtree_empty) simp
    with True 3 show ?thesis by simp
  next
    case False
    with "3.prems" have "\<forall>x \<in> set (dirs @ [d]). \<not> should_exclude_dir sc x" by simp
    with 3 False show ?thesis by simp
  qed
qed


text \<open>
  Claim C9. The scan of a project tree yields exactly the files of the tree, in walk
  order, whose chain of directories below the project root has no name in the exclude
  set and no name starting with a dot, and which pass the file filter. So no file in the
  subtree of an excluded directory is ever yielded, whatever the names of the
  directories between that directory and the file.
\<close>

theorem scan_prunes_excluded_subtrees:
  "scan_tree fnmatch sc [] t = filter (kept fnmatch sc) (all_files [] t)
   \<and> scan fnmatch sc project_path t
       = map (entry_path project_path) (filter (kept fnmatch sc) (all_files [] t))
   \<and> ((dirs, f) \<in> set (scan_tree fnmatch sc [] t) \<longrightarrow>
        (dirs, f) \<in> set (all_files [] t)
        \<and> (\<forall>d \<in> set dirs. d \<notin> set (exclude_dirs sc) \<and> \<not> startswith d ''.''))
   \<and> ((dirs, f) \<in> set (all_files [] t)
        \<and> (\<exists>d \<in> set dirs. d \<in> set (exclude_dirs sc) \<or> startswith d ''.'') \<longrightarrow>
        (dirs, f) \<notin> set (scan_tree fnmatch sc [] t))"
proof -
  have eq: "scan_tree fnmatch sc [] t = filter (kept fnmatch sc) (all_files [] t)"
    by (rule scan_tree_filter) simp
  then show ?thesis
    by (auto simp: scan_def kept_def should_exclude_dir_def)
qed

lemma demo_scan:
  "scan exact_match demo_scanner ''/proj'' demo_tree
     = [''/proj/application.yml'', ''/proj/src/application.yml'']"
  by (simp add: scan_def demo_tree_def demo_scanner_def should_exclude_dir_def
      should_process_file_def exact_match_def entry_path_def path_join_def rel_path_of_def
      startswith_def endswith_def)

theorem scan_prunes_excluded_subtrees_witness:
  "scan exact_match demo_scanner ''/proj'' demo_tree
     = [''/proj/application.yml'', ''/proj/src/application.yml'']
   \<and> ([''node_modules'', ''conf''], ''application.yml'') \<in> set (all_files [] demo_tree)
   \<and> should_exclude_dir demo_scanner ''node_modules''
   \<and> \<not> should_exclude_dir demo_scanner ''conf''
   \<and> ([''node_modules'', ''conf''], ''application.yml'')
        \<notin> set (scan_tree exact_match demo_scanner [] demo_tree)"
proof -
  note t = scan_prunes_excluded_subtrees [where fnmatch = exact_match and sc = demo_scanner
      and t = demo_tree and dirs = "[''node_modules'', ''conf'']" and f = "''application.yml''"
      and project_path = "''/proj''"]
  have a: "([''node_modules'', ''conf''], ''application.yml'') \<in> set (all_files [] demo_tree)"
    by (simp add: demo_tree_def)
  have e: "should_exclude_dir demo_scanner ''node_modules''"
    by (simp add: demo_scanner_def should_exclude_dir_def)
  have ne: "\<not> should_exclude_dir demo_scanner ''conf''"
    by (simp add: demo_scanner_def should_exclude_dir_def startswith_def)
  have ex: "\<exists>d \<in> set [''node_modules'', ''conf''].
              d \<in> set (exclude_dirs demo_scanner) \<or> startswith d ''.''"
    by (simp add: demo_scanner_def)
  from t a ex have "([''node_modules'', ''conf''], ''application.yml'')
        \<notin> set (scan_tree exact_match demo_scanner [] demo_tree)" by blast
  with demo_scan a e ne show ?thesis by blast
qed

section \<open>Properties of the backup manager\<close>

lemma map_of_dict_set: "map_of (dict_set d k v) = (map_of d)(k \<mapsto> v)"
  by (induction d k v rule: dict_set.induct) (auto simp: fun_upd_twist)

lemma keys_dict_set: "fst ` set (dict_set d k v) = insert k (fst ` set d)"
  by (induction d k v rule: dict_set.induct) auto

lemma set_dict_set: "set (dict_set d k v) \<subseteq> insert (k, v) (set d)"
  by (induction d k v rule: dict_set.induct) auto

lemma distinct_dict_set: "distinct (map fst d) \<Longrightarrow> distinct (map fst (dict_set d k v))"
proof (induction d k v rule: dict_set.induct)
  case (1 k v)
  then show ?case by simp
next
  case (2 k' v' d k v)
  have "fst ` set (dict_set d k v) = insert k (fst ` set d)" by (rule keys_dict_set)
  with 2 show ?case by auto
qed

lemma set_dict_update: "set (dict_update d other) \<subseteq> set d \<union> set other"
proof (induction d other rule: dict_update.induct)
  case (1 d)
  then show ?case by simp
next
  case (2 d k v other)
  with set_dict_set [of d k v] show ?case by auto
qed

lemma distinct_dict_update:
  "distinct (map fst d) \<Longrightarrow> distinct (map fst (dict_update d other))"
  by (induction d other rule: dict_update.induct) (auto simp: distinct_dict_set)

lemma map_of_dict_update:
  "distinct (map fst other) \<Longrightarrow> map_of (dict_update d other) = map_of d ++ map_of other"
proof (induction d other rule: dict_update.induct)
  case (1 d)
  then show ?case by simp
next
  case (2 d k v other)
  then have k: "k \<notin> dom (map_of other)" by (auto simp: dom_map_of_conv_image_fst)
  from 2 have "map_of (dict_update (dict_set d k v) other)
                 = map_of (dict_set d k v) ++ map_of other"
    by simp
  also have "\<dots> = (map_of d)(k \<mapsto> v) ++ map_of other"
    by (simp only: map_of_dict_set)
  also have "\<dots> = (map_of d ++ map_of other)(k \<mapsto> v)"
    using k by (rule map_add_upd_left)
  also have "\<dots> = map_of d ++ (map_of other)(k \<mapsto> v)"
    by (rule map_add_upd [symmetric])
  finally show ?case by (simp only: dict_update.simps map_of.simps fst_conv snd_conv)
qed

lemma dict_set_fresh: "k \<notin> fst ` set d \<Longrightarrow> dict_set d k v = d @ [(k, v)]"
  by (induction d k v rule: dict_set.induct) auto

lemma dict_update_append:
  "distinct (map fst (d @ other)) \<Longrightarrow> dict_update d other = d @ other"
proof (induction d other rule: dict_update.induct)
  case (1 d)
  then show ?case by simp
next
  case (2 d k v other)
  then have "k \<notin> fst ` set d" by auto
  then have s: "dict_set d k v = d @ [(k, v)]" by (rule dict_set_fresh)
  from 2 have "distinct (map fst ((d @ [(k, v)]) @ other))" by auto
  with 2 s show ?case by simp
qed

lemma dict_update_Nil: "distinct (map fst d) \<Longrightarrow> dict_update [] d = d"
  using dict_update_append [of "[]" d] by simp

lemma manifest_path_manifest_update [simp]:
  "manifest_path (mgr\<lparr>backup_manifest := x\<rparr>) root = manifest_path mgr root"
  by (simp add: manifest_path_def get_backup_dir_def)

lemma get_backup_path_manifest_update [simp]:
  "get_backup_path rp ts (mgr\<lparr>backup_manifest := x\<rparr>) f root = get_backup_path rp ts mgr f root"
  by (simp add: get_backup_path_def get_backup_dir_def)

lemma distinct_on_disk_manifest: "distinct (map fst (on_disk_manifest fs p))"
  by (auto simp: on_disk_manifest_def json_load_def distinct_dict_update
      split: option.splits file_content.splits)

text \<open>When \<open>create_backup\<close> returns, it has copied the file and written the merged manifest.\<close>

lemma create_backup_returns:
  assumes "create_backup rp ts mgr fs f root = (Inr bp, mgr', fs')"
      and "get_backup_path rp ts mgr f root \<noteq> manifest_path mgr root"
  shows "bp = get_backup_path rp ts mgr f root
       \<and> fs f \<noteq> None \<and> f \<noteq> bp
       \<and> mgr' = mgr\<lparr>backup_manifest := dict_set (backup_manifest mgr) f bp\<rparr>
       \<and> fs' = (fs(bp := fs f))(manifest_path mgr root \<mapsto>
                  Manifest (dict_update (on_disk_manifest fs (manifest_path mgr root))
                              (backup_manifest mgr')))"
  using assms
  by (auto simp: create_backup_def copy2_def save_manifest_def Let_def on_disk_manifest_def
      json_load_def split: if_splits sum.splits prod.splits option.splits file_content.splits)

text \<open>\<open>create_backup\<close> returns when the file exists and the manifest, if any, can be read.\<close>

lemma create_backup_ok:
  assumes "fs f \<noteq> None"
      and "f \<noteq> get_backup_path rp ts mgr f root"
      and "get_backup_path rp ts mgr f root \<noteq> manifest_path mgr root"
      and "fs (manifest_path mgr root) = None \<or> (\<exists>ms. fs (manifest_path mgr root) = Some (Manifest ms))"
  shows "\<exists>mgr' fs'. create_backup rp ts mgr fs f root
           = (Inr (get_backup_path rp ts mgr f root), mgr', fs')"
  using assms
  by (auto simp: create_backup_def copy2_def save_manifest_def Let_def json_load_def
      split: if_splits sum.splits prod.splits option.splits file_content.splits)

lemma restore_loop_frame:
  assumes "\<forall>(orig, b) \<in> set items. orig \<noteq> b"
  shows "\<exists>restored fs'. restore_loop fs items acc = (Inr restored, fs')
           \<and> (\<forall>p. p \<notin> fst ` set items \<longrightarrow> fs' p = fs p) \<and> set acc \<subseteq> set restored"
  using assms
proof (induction items arbitrary: fs acc)
  case Nil
  then show ?case by simp
next
  case (Cons e items)
  obtain orig b where e: "e = (orig, b)" by (cases e)
  from Cons.prems e have ne: "orig \<noteq> b" and rest: "\<forall>(orig, b) \<in> set items. orig \<noteq> b" by auto
  show ?case
  proof (cases "fs b = None")
    case True
    then have st: "restore_loop fs (e # items) acc = restore_loop fs items acc"
      using e by simp
    from Cons.IH [where fs = fs and acc = acc, OF rest] show ?thesis
      unfolding st by auto
  next
    case False
    then have st: "restore_loop fs (e # items) acc
                     = restore_loop (fs(orig := fs b)) items (acc @ [orig])"
      using ne e by (auto simp: copy2_def)
    from Cons.IH [where fs = "fs(orig := fs b)" and acc = "acc @ [orig]", OF rest]
    obtain restored fs' where
      r: "restore_loop (fs(orig := fs b)) items (acc @ [orig]) = (Inr restored, fs')"
      and fr: "\<forall>p. p \<notin> fst ` set items \<longrightarrow> fs' p = (fs(orig := fs b)) p"
      and ac: "set (acc @ [orig]) \<subseteq> set restored" by blast
    have "\<forall>p. p \<notin> fst ` set (e # items) \<longrightarrow> fs' p = fs p"
    proof (intro allI impI)
      fix p assume "p \<notin> fst ` set (e # items)"
      then have "p \<noteq> orig" "p \<notin> fst ` set items" using e by auto
      with fr show "fs' p = fs p" by simp
    qed
    moreover from ac have "set acc \<subseteq> set restored" by simp
    ultimately show ?thesis unfolding st using r by blast
  qed
qed

lemma restore_loop_restores:
  assumes "distinct (map fst items)" "(f, b) \<in> set items" "fs b = Some c"
      and "\<forall>(orig, b') \<in> set items. orig \<noteq> b' \<and> orig \<noteq> b"
  shows "\<exists>restored fs'. restore_loop fs items acc = (Inr restored, fs')
           \<and> fs' f = Some c \<and> f \<in> set restored"
  using assms
proof (induction items arbitrary: fs acc)
  case Nil
  then show ?case by simp
next
  case (Cons e items)
  obtain orig b' where e: "e = (orig, b')" by (cases e)
  from Cons.prems e have ne: "orig \<noteq> b'" "orig \<noteq> b"
    and rest: "\<forall>(orig, b') \<in> set items. orig \<noteq> b' \<and> orig \<noteq> b"
    and d: "distinct (map fst items)" and fresh: "orig \<notin> fst ` set items" by auto
  from rest have rest': "\<forall>(orig, b') \<in> set items. orig \<noteq> b'" by auto
  show ?case
  proof (cases "orig = f")
    case True
    with Cons.prems(2) e fresh have b: "b' = b" by force
    have st: "restore_loop fs (e # items) acc = restore_loop (fs(f := fs b)) items (acc @ [f])"
      using Cons.prems(3) True b e ne by (auto simp: copy2_def)
    from restore_loop_frame [where fs = "fs(f := fs b)" and acc = "acc @ [f]", OF rest']
    obtain restored fs' where
      r: "restore_loop (fs(f := fs b)) items (acc @ [f]) = (Inr restored, fs')"
      and fr: "\<forall>p. p \<notin> fst ` set items \<longrightarrow> fs' p = (fs(f := fs b)) p"
      and ac: "set (acc @ [f]) \<subseteq> set restored" by blast
    from fr fresh True have "fs' f = (fs(f := fs b)) f" by blast
    then have "fs' f = Some c" using Cons.prems(3) by simp
    moreover from ac have "f \<in> set restored" by simp
    ultimately show ?thesis unfolding st using r by blast
  next
    case False
    with Cons.prems(2) e have mem: "(f, b) \<in> set items" by auto
    show ?thesis
    proof (cases "fs b' = None")
      case True
      then have st: "restore_loop fs (e # items) acc = restore_loop fs items acc"
        using e by simp
      from Cons.IH [where fs = fs and acc = acc, OF d mem Cons.prems(3) rest] show ?thesis
        unfolding st .
    next
      case nn: False
      then have st: "restore_loop fs (e # items) acc
                       = restore_loop (fs(orig := fs b')) items (acc @ [orig])"
        using ne e by (auto simp: copy2_def)
      have "(fs(orig := fs b')) b = Some c" using ne(2) Cons.prems(3) by simp
      from Cons.IH [where fs = "fs(orig := fs b')" and acc = "acc @ [orig]", OF d mem this rest]
      show ?thesis unfolding st .
    qed
  qed
qed

lemma on_disk_manifest_written:
  "distinct (map fst d) \<Longrightarrow> fs p = Some (Manifest d) \<Longrightarrow> on_disk_manifest fs p = d"
  by (simp add: on_disk_manifest_def json_load_def dict_update_Nil)

lemma restore_all_missing:
  "fs (manifest_path mgr root) = None \<Longrightarrow> restore_all mgr fs root = (Inr [], fs)"
  by (simp add: restore_all_def)

lemma backup_twice:
  fixes relpath ts1 ts2 mgr fs f root c2
  defines "bp1 \<equiv> get_backup_path relpath ts1 mgr f root"
      and "bp2 \<equiv> get_backup_path relpath ts2 mgr f root"
      and "mp \<equiv> manifest_path mgr root"
      and "E0 \<equiv> on_disk_manifest fs (manifest_path mgr root)"
  defines "M1 \<equiv> dict_set (backup_manifest mgr) f bp1"
  defines "M2 \<equiv> dict_set M1 f bp2"
  assumes paths: "f \<noteq> mp" "f \<noteq> bp1" "f \<noteq> bp2" "bp1 \<noteq> mp" "bp2 \<noteq> mp"
      and ex: "fs f \<noteq> None"
      and man: "fs mp = None \<or> (\<exists>ms. fs mp = Some (Manifest ms))"
      and first: "create_backup relpath ts1 mgr fs f root = (r1, mgr1, fs1)"
      and second: "create_backup relpath ts2 mgr1 (fs1(f \<mapsto> c2)) f root = (r2, mgr2, fs2)"
  shows "r1 = Inr bp1 \<and> r2 = Inr bp2
       \<and> manifest_path mgr2 root = mp
       \<and> fs2 mp = Some (Manifest (dict_update (dict_update E0 M1) M2))
       \<and> fs2 bp2 = Some c2"
proof -
  from create_backup_ok [of fs f relpath ts1 mgr root] ex paths man
  obtain mgr' fs' where "create_backup relpath ts1 mgr fs f root = (Inr bp1, mgr', fs')"
    unfolding bp1_def mp_def by blast
  with first have r1: "r1 = Inr bp1" and c1: "create_backup relpath ts1 mgr fs f root = (Inr bp1, mgr1, fs1)"
    by simp_all
  from create_backup_returns [OF c1] paths
  have mgr1: "mgr1 = mgr\<lparr>backup_manifest := M1\<rparr>"
    and fs1: "fs1 = (fs(bp1 := fs f))(mp \<mapsto> Manifest (dict_update E0 M1))"
    unfolding bp1_def mp_def M1_def E0_def by simp_all
  let ?fs1 = "fs1(f \<mapsto> c2)"
  have p2: "get_backup_path relpath ts2 mgr1 f root = bp2" "manifest_path mgr1 root = mp"
    unfolding mgr1 bp2_def mp_def by simp_all
  have d1: "distinct (map fst (dict_update E0 M1))"
    unfolding E0_def by (intro distinct_dict_update distinct_on_disk_manifest)
  have m1: "?fs1 mp = Some (Manifest (dict_update E0 M1))"
    using paths(1) unfolding fs1 by simp
  then have od: "on_disk_manifest ?fs1 mp = dict_update E0 M1"
    using d1 by (intro on_disk_manifest_written)
  have e1: "?fs1 f \<noteq> None" by simp
  from create_backup_ok [of ?fs1 f relpath ts2 mgr1 root] e1 paths m1
  obtain mgr'' fs'' where "create_backup relpath ts2 mgr1 ?fs1 f root = (Inr bp2, mgr'', fs'')"
    unfolding p2 by blast
  with second have r2: "r2 = Inr bp2"
    and c2: "create_backup relpath ts2 mgr1 ?fs1 f root = (Inr bp2, mgr2, fs2)"
    by simp_all
  from create_backup_returns [OF c2] paths
  have mgr2: "mgr2 = mgr1\<lparr>backup_manifest := dict_set (backup_manifest mgr1) f bp2\<rparr>"
    and fs2: "fs2 = (?fs1(bp2 := ?fs1 f))(mp \<mapsto>
                  Manifest (dict_update (on_disk_manifest ?fs1 mp) (backup_manifest mgr2)))"
    unfolding p2 by simp_all
  have bm2: "backup_manifest mgr2 = M2" unfolding mgr2 mgr1 M2_def by simp
  have "fs2 mp = Some (Manifest (dict_update (dict_update E0 M1) M2))"
    unfolding fs2 od bm2 by simp
  moreover have "fs2 bp2 = Some c2" unfolding fs2 using paths by simp
  moreover have "manifest_path mgr2 root = mp" unfolding mgr2 mgr1 mp_def by simp
  ultimately show ?thesis using r1 r2 by simp
qed


text \<open>
  Claim C8. A file that exists is backed up twice under the same project root, and the
  caller may rewrite it after each backup. The paths of the file, of the two backups and
  of the manifest are distinct as far as they must be, the manifest on disk is absent or
  readable, and no entry already in a manifest maps a path to itself or to the path of
  the second backup. Then both calls return their backup path; the manifest on disk
  after the second call has one entry for the file, which maps it to the second backup;
  the second backup holds the content the file had at the second call; and
  \<open>restore_all\<close> returns a list that contains the file and leaves the file with that
  content. With no manifest on disk, \<open>restore_all\<close> returns the empty list and changes
  nothing.
\<close>

theorem backup_twice_restores_latest:
  fixes relpath ts1 ts2 mgr fs f root x2 x3
  defines "bp1 \<equiv> get_backup_path relpath ts1 mgr f root"
      and "bp2 \<equiv> get_backup_path relpath ts2 mgr f root"
      and "mp \<equiv> manifest_path mgr root"
  assumes dist: "distinct (map fst (backup_manifest mgr))"
      and paths: "f \<noteq> mp" "f \<noteq> bp1" "f \<noteq> bp2" "bp1 \<noteq> mp" "bp2 \<noteq> mp"
      and ex: "fs f \<noteq> None"
      and man: "fs mp = None \<or> (\<exists>ms. fs mp = Some (Manifest ms))"
      and wf: "\<forall>(orig, b) \<in> set (on_disk_manifest fs mp @ backup_manifest mgr).
                 orig \<noteq> b \<and> orig \<noteq> bp2"
      and first: "create_backup relpath ts1 mgr fs f root = (r1, mgr1, fs1)"
      and second: "create_backup relpath ts2 mgr1 (fs1(f \<mapsto> x2)) f root = (r2, mgr2, fs2)"
      and third: "restore_all mgr2 (fs2(f \<mapsto> x3)) root = (r3, fs3)"
  shows "r1 = Inr bp1 \<and> r2 = Inr bp2
       \<and> (\<exists>M. fs2 mp = Some (Manifest M) \<and> distinct (map fst M) \<and> map_of M f = Some bp2)
       \<and> fs2 bp2 = Some x2
       \<and> (\<exists>restored. r3 = Inr restored \<and> f \<in> set restored)
       \<and> fs3 f = Some x2
       \<and> (fs' (manifest_path mgr' root') = None \<longrightarrow> restore_all mgr' fs' root' = (Inr [], fs'))"
proof -
  let ?E0 = "on_disk_manifest fs mp"
  let ?M1 = "dict_set (backup_manifest mgr) f bp1"
  let ?M2 = "dict_set ?M1 f bp2"
  let ?D = "dict_update (dict_update ?E0 ?M1) ?M2"
  from backup_twice [of f mgr root relpath ts1 ts2 fs r1 mgr1 fs1 x2 r2 mgr2 fs2]
    paths ex man first second
  have r: "r1 = Inr bp1" "r2 = Inr bp2" and mp2: "manifest_path mgr2 root = mp"
    and disk: "fs2 mp = Some (Manifest ?D)" and bk: "fs2 bp2 = Some x2"
    unfolding bp1_def bp2_def mp_def by simp_all
  have dM2: "distinct (map fst ?M2)" using dist by (intro distinct_dict_set)
  have dD: "distinct (map fst ?D)"
    by (intro distinct_dict_update distinct_on_disk_manifest)
  have "map_of ?D = map_of (dict_update ?E0 ?M1) ++ map_of ?M2"
    using dM2 by (rule map_of_dict_update)
  then have look: "map_of ?D f = Some bp2" by (simp add: map_of_dict_set)
  then have mem: "(f, bp2) \<in> set ?D" by (rule map_of_SomeD)
  have sub: "set ?D \<subseteq> set ?E0 \<union> set (backup_manifest mgr) \<union> {(f, bp1), (f, bp2)}"
    using set_dict_update [of "dict_update ?E0 ?M1" ?M2] set_dict_update [of ?E0 ?M1]
      set_dict_set [of ?M1 f bp2] set_dict_set [of "backup_manifest mgr" f bp1]
    by blast
  have wfD: "\<forall>(orig, b) \<in> set ?D. orig \<noteq> b \<and> orig \<noteq> bp2"
  proof (intro ballI)
    fix e assume "e \<in> set ?D"
    with sub have "e \<in> set (?E0 @ backup_manifest mgr) \<or> e = (f, bp1) \<or> e = (f, bp2)" by auto
    then show "case e of (orig, b) \<Rightarrow> orig \<noteq> b \<and> orig \<noteq> bp2"
      using wf paths by auto
  qed
  let ?fs = "fs2(f \<mapsto> x3)"
  have m3: "?fs mp = Some (Manifest ?D)" using disk paths by simp
  have b3: "?fs bp2 = Some x2" using bk paths by simp
  have load: "json_load ?fs mp = Inr ?D"
    using m3 dD by (simp add: json_load_def dict_update_Nil)
  have ra: "restore_all mgr2 ?fs root = restore_loop ?fs ?D []"
    using m3 load mp2 by (simp add: restore_all_def)
  from restore_loop_restores [where fs = ?fs and acc = "[]" and b = bp2 and c = x2
      and f = f and items = ?D, OF dD mem b3 wfD] obtain restored fs'' where
    "restore_loop ?fs ?D [] = (Inr restored, fs'')" "fs'' f = Some x2" "f \<in> set restored" by blast
  with ra third have "r3 = Inr restored" "fs3 f = Some x2" "f \<in> set restored" by simp_all
  with r disk dD look bk restore_all_missing [of fs' mgr' root'] show ?thesis by blast
qed


lemma demo_paths:
  "get_backup_path relpath_under ''20240101_000000'' demo_manager demo_file ''/proj''
     = ''/proj/.masking_backup/application.yml_20240101_000000.backup''"
  "get_backup_path relpath_under ''20240101_000005'' demo_manager demo_file ''/proj''
     = ''/proj/.masking_backup/application.yml_20240101_000005.backup''"
  "manifest_path demo_manager ''/proj'' = ''/proj/.masking_backup/manifest.json''"
  by (simp_all add: get_backup_path_def manifest_path_def get_backup_dir_def path_join_def
      relpath_under_def demo_manager_def demo_file_def startswith_def endswith_def)


theorem backup_twice_restores_latest_witness:
  "demo_fs demo_file \<noteq> None
   \<and> demo_fs (manifest_path demo_manager ''/proj'') = None
   \<and> fst demo_first = Inr ''/proj/.masking_backup/application.yml_20240101_000000.backup''
   \<and> fst demo_second = Inr ''/proj/.masking_backup/application.yml_20240101_000005.backup''
   \<and> snd (snd demo_second) ''/proj/.masking_backup/application.yml_20240101_000005.backup''
       = Some (Data ''password: two'')
   \<and> snd demo_restore demo_file = Some (Data ''password: two'')"
proof -
  have ex: "demo_fs demo_file \<noteq> None" by (simp add: demo_fs_def)
  have nm: "demo_fs (manifest_path demo_manager ''/proj'') = None"
    by (simp add: demo_paths demo_fs_def demo_file_def)
  have dist: "distinct (map fst (backup_manifest demo_manager))" by (simp add: demo_manager_def)
  have p1: "demo_file \<noteq> manifest_path demo_manager ''/proj''"
    and p2: "demo_file \<noteq> get_backup_path relpath_under ''20240101_000000'' demo_manager demo_file ''/proj''"
    and p3: "demo_file \<noteq> get_backup_path relpath_under ''20240101_000005'' demo_manager demo_file ''/proj''"
    and p4: "get_backup_path relpath_under ''20240101_000000'' demo_manager demo_file ''/proj''
               \<noteq> manifest_path demo_manager ''/proj''"
    and p5: "get_backup_path relpath_under ''20240101_000005'' demo_manager demo_file ''/proj''
               \<noteq> manifest_path demo_manager ''/proj''"
    unfolding demo_paths by (simp_all add: demo_file_def)
  have wf: "\<forall>(orig, b) \<in> set (on_disk_manifest demo_fs (manifest_path demo_manager ''/proj'')
                               @ backup_manifest demo_manager).
              orig \<noteq> b
              \<and> orig \<noteq> get_backup_path relpath_under ''20240101_000005'' demo_manager demo_file ''/proj''"
    using nm by (simp add: on_disk_manifest_def json_load_def demo_manager_def)
  have first: "create_backup relpath_under ''20240101_000000'' demo_manager demo_fs demo_file ''/proj''
                 = (fst demo_first, fst (snd demo_first), snd (snd demo_first))"
    unfolding demo_first_def by simp
  have second: "create_backup relpath_under ''20240101_000005'' (fst (snd demo_first))
                  ((snd (snd demo_first))(demo_file \<mapsto> Data ''password: two'')) demo_file ''/proj''
                 = (fst demo_second, fst (snd demo_second), snd (snd demo_second))"
    unfolding demo_second_def by simp
  have third: "restore_all (fst (snd demo_second))
                 ((snd (snd demo_second))(demo_file \<mapsto> Data ''password: three'')) ''/proj''
                 = (fst demo_restore, snd demo_restore)"
    unfolding demo_restore_def by simp
  note t = backup_twice_restores_latest [OF dist p1 p2 p3 p4 p5 ex disjI1 [OF nm] wf first second third]
  from t have "fst demo_first = Inr (get_backup_path relpath_under ''20240101_000000'' demo_manager demo_file ''/proj'')"
    and "fst demo_second = Inr (get_backup_path relpath_under ''20240101_000005'' demo_manager demo_file ''/proj'')"
    and "snd (snd demo_second) (get_backup_path relpath_under ''20240101_000005'' demo_manager demo_file ''/proj'')
           = Some (Data ''password: two'')"
    and "snd demo_restore demo_file = Some (Data ''password: two'')"
    by blast+
  then show ?thesis using ex nm unfolding demo_paths by blast
qed

text \<open>
  Claim C10. One manager backs up a file under a first project root and then a file under
  a second one, both calls returning. The manifest written under the second root is the
  manifest found on disk there, updated with the whole manifest the manager holds in
  memory: it maps the second file to its backup, and it also maps the file under the
  first root to its backup.
\<close>

theorem manifest_carries_other_roots:
  assumes dist: "distinct (map fst (backup_manifest mgr))"
      and np1: "get_backup_path relpath ts1 mgr f1 root1 \<noteq> manifest_path mgr root1"
      and np2: "get_backup_path relpath ts2 mgr f2 root2 \<noteq> manifest_path mgr root2"
      and first: "create_backup relpath ts1 mgr fs f1 root1 = (Inr bp1, mgr1, fs1)"
      and second: "create_backup relpath ts2 mgr1 fs1' f2 root2 = (Inr bp2, mgr2, fs2)"
  shows "backup_manifest mgr2 = dict_set (dict_set (backup_manifest mgr) f1 bp1) f2 bp2
       \<and> (\<exists>written. fs2 (manifest_path mgr root2) = Some (Manifest written)
            \<and> written = dict_update (on_disk_manifest fs1' (manifest_path mgr root2))
                          (backup_manifest mgr2)
            \<and> map_of written = map_of (on_disk_manifest fs1' (manifest_path mgr root2))
                                 ++ map_of (backup_manifest mgr2)
            \<and> map_of written f2 = Some bp2
            \<and> (f1 \<noteq> f2 \<longrightarrow> map_of written f1 = Some bp1))"
proof -
  from create_backup_returns [OF first np1]
  have mgr1: "mgr1 = mgr\<lparr>backup_manifest := dict_set (backup_manifest mgr) f1 bp1\<rparr>" by simp
  have np2': "get_backup_path relpath ts2 mgr1 f2 root2 \<noteq> manifest_path mgr1 root2"
    unfolding mgr1 using np2 by simp
  have mp: "manifest_path mgr1 root2 = manifest_path mgr root2" unfolding mgr1 by simp
  from create_backup_returns [OF second np2']
  have mgr2: "mgr2 = mgr1\<lparr>backup_manifest := dict_set (backup_manifest mgr1) f2 bp2\<rparr>"
    and fs2: "fs2 = (fs1'(bp2 := fs1' f2))(manifest_path mgr root2 \<mapsto>
                 Manifest (dict_update (on_disk_manifest fs1' (manifest_path mgr root2))
                             (backup_manifest mgr2)))"
    unfolding mp by simp_all
  let ?M2 = "dict_set (dict_set (backup_manifest mgr) f1 bp1) f2 bp2"
  let ?E = "on_disk_manifest fs1' (manifest_path mgr root2)"
  have bm: "backup_manifest mgr2 = ?M2" unfolding mgr2 mgr1 by simp
  have d: "distinct (map fst ?M2)" using dist by (intro distinct_dict_set)
  have w: "fs2 (manifest_path mgr root2) = Some (Manifest (dict_update ?E ?M2))"
    unfolding fs2 bm by simp
  have m: "map_of (dict_update ?E ?M2) = map_of ?E ++ map_of ?M2"
    using d by (rule map_of_dict_update)
  have l2: "map_of ?M2 f2 = Some bp2" by (simp add: map_of_dict_set)
  have l1: "f1 \<noteq> f2 \<Longrightarrow> map_of ?M2 f1 = Some bp1" by (simp add: map_of_dict_set)
  from m l2 have k2: "map_of (dict_update ?E ?M2) f2 = Some bp2" by simp
  from m l1 have k1: "f1 \<noteq> f2 \<longrightarrow> map_of (dict_update ?E ?M2) f1 = Some bp1" by simp
  from bm w m k2 k1 show ?thesis by simp
qed


lemma two_roots_paths:
  "get_backup_path relpath_under ''20240101_000000'' demo_manager ''/a/x.env'' ''/a''
     = ''/a/.masking_backup/x.env_20240101_000000.backup''"
  "get_backup_path relpath_under ''20240101_000001'' demo_manager ''/b/y.env'' ''/b''
     = ''/b/.masking_backup/y.env_20240101_000001.backup''"
  "manifest_path demo_manager ''/a'' = ''/a/.masking_backup/manifest.json''"
  "manifest_path demo_manager ''/b'' = ''/b/.masking_backup/manifest.json''"
  by (simp_all add: get_backup_path_def manifest_path_def get_backup_dir_def path_join_def
      relpath_under_def demo_manager_def startswith_def endswith_def)

theorem manifest_carries_other_roots_witness:
  "fst two_roots_first = Inr ''/a/.masking_backup/x.env_20240101_000000.backup''
   \<and> fst two_roots_second = Inr ''/b/.masking_backup/y.env_20240101_000001.backup''
   \<and> (\<exists>written. snd (snd two_roots_second) ''/b/.masking_backup/manifest.json''
                    = Some (Manifest written)
          \<and> map_of written ''/a/x.env'' = Some ''/a/.masking_backup/x.env_20240101_000000.backup''
          \<and> map_of written ''/b/y.env'' = Some ''/b/.masking_backup/y.env_20240101_000001.backup'')"
proof -
  let ?bp1 = "''/a/.masking_backup/x.env_20240101_000000.backup''"
  let ?bp2 = "''/b/.masking_backup/y.env_20240101_000001.backup''"
  let ?mgr1 = "fst (snd two_roots_first)" and ?fs1 = "snd (snd two_roots_first)"
  have dist: "distinct (map fst (backup_manifest demo_manager))" by (simp add: demo_manager_def)
  have np1: "get_backup_path relpath_under ''20240101_000000'' demo_manager ''/a/x.env'' ''/a''
               \<noteq> manifest_path demo_manager ''/a''"
    and np2: "get_backup_path relpath_under ''20240101_000001'' demo_manager ''/b/y.env'' ''/b''
               \<noteq> manifest_path demo_manager ''/b''"
    unfolding two_roots_paths by simp_all
  have "\<exists>mgr' fs'. create_backup relpath_under ''20240101_000000'' demo_manager two_roots_fs
                       ''/a/x.env'' ''/a'' = (Inr ?bp1, mgr', fs')"
    using create_backup_ok [of two_roots_fs "''/a/x.env''" relpath_under "''20240101_000000''"
        demo_manager "''/a''"]
    unfolding two_roots_paths by (simp add: two_roots_fs_def)
  then obtain mgr' fs' where c1: "create_backup relpath_under ''20240101_000000'' demo_manager
                       two_roots_fs ''/a/x.env'' ''/a'' = (Inr ?bp1, mgr', fs')" by blast
  have t1: "two_roots_first = (Inr ?bp1, mgr', fs')" unfolding two_roots_first_def by (rule c1)
  have first: "create_backup relpath_under ''20240101_000000'' demo_manager two_roots_fs
                       ''/a/x.env'' ''/a'' = (Inr ?bp1, ?mgr1, ?fs1)"
    unfolding t1 using c1 by simp
  from create_backup_returns [OF first np1]
  have mgr1: "?mgr1 = demo_manager\<lparr>backup_manifest :=
                        dict_set (backup_manifest demo_manager) ''/a/x.env'' ?bp1\<rparr>"
    and fs1: "?fs1 = (two_roots_fs(?bp1 := two_roots_fs ''/a/x.env''))
                (manifest_path demo_manager ''/a'' \<mapsto>
                   Manifest (dict_update (on_disk_manifest two_roots_fs (manifest_path demo_manager ''/a''))
                              (backup_manifest ?mgr1)))"
    by simp_all
  have e2: "?fs1 ''/b/y.env'' \<noteq> None" and m2: "?fs1 ''/b/.masking_backup/manifest.json'' = None"
    unfolding fs1 two_roots_paths by (simp_all add: two_roots_fs_def)
  have p2: "get_backup_path relpath_under ''20240101_000001'' ?mgr1 ''/b/y.env'' ''/b'' = ?bp2"
    and q2: "manifest_path ?mgr1 ''/b'' = ''/b/.masking_backup/manifest.json''"
    unfolding mgr1 by (simp_all add: two_roots_paths)
  have "\<exists>mgr' fs'. create_backup relpath_under ''20240101_000001'' ?mgr1 ?fs1
                       ''/b/y.env'' ''/b'' = (Inr ?bp2, mgr', fs')"
    using create_backup_ok [of ?fs1 "''/b/y.env''" relpath_under "''20240101_000001''"
        ?mgr1 "''/b''"] e2 m2
    unfolding p2 q2 by simp
  then obtain mgr'' fs'' where c2: "create_backup relpath_under ''20240101_000001'' ?mgr1 ?fs1
                       ''/b/y.env'' ''/b'' = (Inr ?bp2, mgr'', fs'')" by blast
  have t2: "two_roots_second = (Inr ?bp2, mgr'', fs'')" unfolding two_roots_second_def by (rule c2)
  have second: "create_backup relpath_under ''20240101_000001'' ?mgr1 ?fs1 ''/b/y.env'' ''/b''
                       = (Inr ?bp2, fst (snd two_roots_second), snd (snd two_roots_second))"
    unfolding t2 using c2 by simp
  note t = manifest_carries_other_roots [OF dist np1 np2 first second]
  have ne: "''/a/x.env'' \<noteq> ''/b/y.env''" by simp
  from t ne obtain written where
    "snd (snd two_roots_second) (manifest_path demo_manager ''/b'') = Some (Manifest written)"
    "map_of written ''/b/y.env'' = Some ?bp2" "map_of written ''/a/x.env'' = Some ?bp1"
    by blast
  moreover have "fst two_roots_first = Inr ?bp1" "fst two_roots_second = Inr ?bp2"
    unfolding t1 t2 by simp_all
  ultimately show ?thesis unfolding two_roots_paths by blast
qed

end
